theory Spec2Isabelle
  imports Complex_Main
begin

section \<open>Data model of the Drone task (isaacgymenvs/tasks/drone_plate.py)\<close>

text \<open>
  Tensors with leading dimension \<open>num_envs\<close> are lists indexed by the environment id.
  The values stored in the float32 tensors are finite and are written as real numbers.
  The arithmetic of the reward evaluator is float32 arithmetic: a result beyond the
  largest float32 becomes an infinity, and the infinities and NaN propagate as in IEEE 754
  (section "float32 arithmetic" below); rounding inside the finite range and signed
  zeros are not modelled. Integer buffers (\<open>reset_buf\<close>, \<open>progress_buf\<close>) are lists of
  unbounded integers.
\<close>

type_synonym vec3 = "real \<times> real \<times> real"

text \<open>A quaternion as the four slots 3:7 of a root-state row; the simulator reads them
  as (x, y, z, w).\<close>

type_synonym quat = "real \<times> real \<times> real \<times> real"

datatype error = IndexError | ShapeError

definition vx :: "vec3 \<Rightarrow> real" where
  "vx v = fst v"

definition vy :: "vec3 \<Rightarrow> real" where
  "vy v = fst (snd v)"

definition vz :: "vec3 \<Rightarrow> real" where
  "vz v = snd (snd v)"

section \<open>float32 arithmetic\<close>

text \<open>A float32 value: a finite number, one of the two infinities, or NaN. \<open>fl\<close> gives the
  float32 result of an operation from its exact result: beyond \<open>float32_max\<close>
  (the largest finite float32, about 3.4e38) it is an infinity. The operations
  follow IEEE 754 on infinities and NaN; a comparison with NaN is false.\<close>

datatype f32 = Num real | PosInf | NegInf | NaN

definition float32_max :: real where
  "float32_max = 340282346638528859811704183484516925440"

definition fl :: "real \<Rightarrow> f32" where
  "fl x = (if float32_max < x then PosInf else if x < - float32_max then NegInf else Num x)"

fun fneg :: "f32 \<Rightarrow> f32" where
  "fneg (Num a) = Num (- a)"
| "fneg PosInf = NegInf"
| "fneg NegInf = PosInf"
| "fneg NaN = NaN"

fun fadd :: "f32 \<Rightarrow> f32 \<Rightarrow> f32" where
  "fadd (Num a) (Num b) = fl (a + b)"
| "fadd NaN y = NaN"
| "fadd x NaN = NaN"
| "fadd PosInf NegInf = NaN"
| "fadd NegInf PosInf = NaN"
| "fadd PosInf y = PosInf"
| "fadd x PosInf = PosInf"
| "fadd NegInf y = NegInf"
| "fadd x NegInf = NegInf"

definition fsub :: "f32 \<Rightarrow> f32 \<Rightarrow> f32" where
  "fsub x y = fadd x (fneg y)"

fun fmul :: "f32 \<Rightarrow> f32 \<Rightarrow> f32" where
  "fmul (Num a) (Num b) = fl (a * b)"
| "fmul NaN y = NaN"
| "fmul x NaN = NaN"
| "fmul (Num a) PosInf = (if a = 0 then NaN else if 0 < a then PosInf else NegInf)"
| "fmul (Num a) NegInf = (if a = 0 then NaN else if 0 < a then NegInf else PosInf)"
| "fmul PosInf (Num b) = (if b = 0 then NaN else if 0 < b then PosInf else NegInf)"
| "fmul NegInf (Num b) = (if b = 0 then NaN else if 0 < b then NegInf else PosInf)"
| "fmul PosInf PosInf = PosInf"
| "fmul NegInf NegInf = PosInf"
| "fmul PosInf NegInf = NegInf"
| "fmul NegInf PosInf = NegInf"

fun fdiv :: "f32 \<Rightarrow> f32 \<Rightarrow> f32" where
  "fdiv (Num a) (Num b) =
     (if b = 0 then (if a = 0 then NaN else if 0 < a then PosInf else NegInf) else fl (a / b))"
| "fdiv NaN y = NaN"
| "fdiv x NaN = NaN"
| "fdiv (Num a) PosInf = Num 0"
| "fdiv (Num a) NegInf = Num 0"
| "fdiv PosInf (Num b) = (if 0 \<le> b then PosInf else NegInf)"
| "fdiv NegInf (Num b) = (if 0 \<le> b then NegInf else PosInf)"
| "fdiv x y = NaN"

fun fsqrt :: "f32 \<Rightarrow> f32" where
  "fsqrt (Num a) = (if a < 0 then NaN else Num (sqrt a))"
| "fsqrt PosInf = PosInf"
| "fsqrt NegInf = NaN"
| "fsqrt NaN = NaN"

fun fabs :: "f32 \<Rightarrow> f32" where
  "fabs (Num a) = Num \<bar>a\<bar>"
| "fabs PosInf = PosInf"
| "fabs NegInf = PosInf"
| "fabs NaN = NaN"

fun flt :: "f32 \<Rightarrow> f32 \<Rightarrow> bool" where
  "flt (Num a) (Num b) = (a < b)"
| "flt NaN y = False"
| "flt x NaN = False"
| "flt PosInf y = False"
| "flt x NegInf = False"
| "flt x PosInf = True"
| "flt NegInf y = True"

section \<open>Helpers of isaacgymenvs.utils.torch_jit_utils\<close>

text \<open>Modelled from the spec: \<open>quat_rotate\<close> of torch_jit_utils is not among the sources.
  The spec describes its use as rotating a body-frame axis by the orientation quaternion
  into the world frame; for the quaternion (x, y, z, w) and the vector v this is
  \<open>v (2 w\<^sup>2 - 1) + 2 w (q \<times> v) + 2 q (q \<cdot> v)\<close>, written out by component.\<close>

definition quat_rotate :: "quat \<Rightarrow> vec3 \<Rightarrow> vec3" where
  "quat_rotate q v =
     (case q of (qx, qy, qz, qw) \<Rightarrow>
        let s = 2 * qw * qw - 1;
            d = qx * vx v + qy * vy v + qz * vz v
        in (vx v * s + (qy * vz v - qz * vy v) * qw * 2 + qx * d * 2,
            vy v * s + (qz * vx v - qx * vz v) * qw * 2 + qy * d * 2,
            vz v * s + (qx * vy v - qy * vx v) * qw * 2 + qz * d * 2))"

text \<open>Modelled from the spec: \<open>quat_axis\<close> of torch_jit_utils is not among the sources.
  \<open>quat_axis q axis\<close> is the body-frame unit vector number \<open>axis\<close> rotated by \<open>q\<close>;
  the task calls it with axis 2 only (the body-frame z-axis, "up").\<close>

definition quat_axis :: "quat \<Rightarrow> nat \<Rightarrow> vec3" where
  "quat_axis q axis =
     quat_rotate q (if axis = 0 then 1 else 0, if axis = 1 then 1 else 0, if axis = 2 then 1 else 0)"

section \<open>Reward and termination: compute_drone_reward\<close>

text \<open>One row of the batched computation of \<open>compute_drone_reward\<close>, statement by
  statement, in float32 arithmetic. \<open>torch.where(c, ones, die)\<close> on a row is
  \<open>if c then 1 else die\<close>. \<open>target_dist\<close> is
  \<open>torch.sqrt(torch.square(target_root_positions - root_positions).sum(-1))\<close> on one row;
  the z-component of \<open>quat_axis\<close> enters as the float32 \<open>fl (vz ups)\<close>.\<close>

definition target_dist :: "vec3 \<Rightarrow> vec3 \<Rightarrow> f32" where
  "target_dist target_root_position root_position =
     (let dx = fsub (Num (vx target_root_position)) (Num (vx root_position));
          dy = fsub (Num (vy target_root_position)) (Num (vy root_position));
          dz = fsub (Num (vz target_root_position)) (Num (vz root_position))
      in fsqrt (fadd (fadd (fmul dx dx) (fmul dy dy)) (fmul dz dz)))"

definition drone_reward_row ::
  "vec3 \<Rightarrow> vec3 \<Rightarrow> quat \<Rightarrow> vec3 \<Rightarrow> vec3 \<Rightarrow> int \<Rightarrow> int \<Rightarrow> int \<Rightarrow> f32 \<times> int" where
  "drone_reward_row root_position target_root_position root_quat root_linvel root_angvel
       reset_b progress max_episode_length =
     (let td = target_dist target_root_position root_position;
          pos_reward = fdiv (Num 3.0) (fadd (Num 1.0) (fmul td td));
          ups = quat_axis root_quat 2;
          ups_z = fl (vz ups);
          tiltage = fabs (fsub (Num 1) ups_z);
          up_reward = fdiv (Num 1.0) (fadd (Num 1.0) (fmul tiltage tiltage));
          spinnage = fabs (Num (vz root_angvel));
          spinnage_reward = fdiv (Num 1.0) (fadd (Num 1.0) (fmul spinnage spinnage));
          reward = fadd pos_reward (fmul pos_reward (fadd up_reward spinnage_reward));
          ones = 1;
          die0 = 0;
          die1 = (if flt (Num 8.0) td then ones else die0);
          die2 = (if flt (Num (vz root_position)) (Num 0.5) then ones else die1);
          die3 = (if flt ups_z (Num 0) then ones else die2);
          reset = (if progress \<ge> max_episode_length - 1 then ones else die3)
      in (reward, reset))"

text \<open>The batched function. All buffers the task passes have leading dimension
  \<open>num_envs\<close>; batch sizes that disagree are reported as a shape error.\<close>

definition compute_drone_reward ::
  "vec3 list \<Rightarrow> vec3 list \<Rightarrow> quat list \<Rightarrow> vec3 list \<Rightarrow> vec3 list \<Rightarrow> int list \<Rightarrow> int list \<Rightarrow> int
     \<Rightarrow> error + (f32 list \<times> int list)" where
  "compute_drone_reward root_positions target_root_positions root_quats root_linvels root_angvels
       reset_buf progress_buf max_episode_length =
     (let n = length reset_buf in
      if length root_positions = n \<and> length target_root_positions = n \<and> length root_quats = n
         \<and> length root_linvels = n \<and> length root_angvels = n \<and> length progress_buf = n
      then
        let rows = map (\<lambda>i. drone_reward_row (root_positions ! i) (target_root_positions ! i)
                              (root_quats ! i) (root_linvels ! i) (root_angvels ! i)
                              (reset_buf ! i) (progress_buf ! i) max_episode_length) [0..<n]
        in Inr (map fst rows, map snd rows)
      else Inl ShapeError)"

section \<open>Tensor operations used by the task\<close>

text \<open>\<open>t.nonzero(as_tuple=False).squeeze(-1)\<close> on a one-dimensional tensor: the indices of
  the entries that satisfy the test, in ascending order.\<close>

definition nonzero :: "('a \<Rightarrow> bool) \<Rightarrow> 'a list \<Rightarrow> nat list" where
  "nonzero P xs = filter (\<lambda>i. P (xs ! i)) [0..<length xs]"

text \<open>\<open>torch.unique\<close>: the distinct entries in ascending order.\<close>

definition torch_unique :: "nat list \<Rightarrow> nat list" where
  "torch_unique xs = sort (remdups xs)"

text \<open>Indexed assignment \<open>t[ids, part] = vals\<close>: entry \<open>ids ! k\<close> receives \<open>vals ! k\<close> in the
  part of the row selected by \<open>f\<close>; with a repeated index the later assignment wins.
  The callers check the indices against the leading dimension first.\<close>

definition index_put :: "('v \<Rightarrow> 'a \<Rightarrow> 'a) \<Rightarrow> nat list \<Rightarrow> 'v list \<Rightarrow> 'a list \<Rightarrow> 'a list" where
  "index_put f ids vals xs = fold (\<lambda>(i, v) ys. ys[i := f v (ys ! i)]) (zip ids vals) xs"

text \<open>\<open>torch.clamp(x, lo, hi)\<close> on one entry.\<close>

definition clamp :: "real \<Rightarrow> real \<Rightarrow> real \<Rightarrow> real" where
  "clamp x lo hi = min (max x lo) hi"

text \<open>Modelled from the spec: \<open>torch_rand_float\<close> of torch_jit_utils is not among the
  sources. The spec describes its result as uniform noise in the bounded range from
  \<open>lower\<close> to \<open>upper\<close>; the draws \<open>us\<close> are the raw uniform samples of the unit interval
  (one per requested entry), scaled into the range.\<close>

definition torch_rand_float :: "real \<Rightarrow> real \<Rightarrow> real list \<Rightarrow> real list" where
  "torch_rand_float lower upper us = map (\<lambda>u. (upper - lower) * u + lower) us"

section \<open>State of the task\<close>

text \<open>One 13-float root-state row: position (slots 0:3), orientation quaternion (3:7),
  linear velocity (7:10), angular velocity (10:13).\<close>

record actor_state =
  position :: vec3
  orientation :: quat
  linvel :: vec3
  angvel :: vec3

type_synonym action = "real \<times> real \<times> real \<times> real"

text \<open>The random source: the k-th raw unit-interval sample of each of the three
  \<open>torch_rand_float\<close> calls of a reset, and the k-th quaternion (x, y, z, w) that
  \<open>gymapi.Quat.from_axis_angle\<close> returns for the k-th sampled plate tilt.\<close>

record rng =
  rand_x :: "nat \<Rightarrow> real"
  rand_y :: "nat \<Rightarrow> real"
  rand_z :: "nat \<Rightarrow> real"
  tilt_quat :: "nat \<Rightarrow> quat"

text \<open>The fields of \<open>Drone\<close> that the step functions read or write. \<open>root_states\<close> and
  \<open>marker_states\<close> are the views of actor 0 (drone) and actor 1 (plate marker) of every
  environment in the root-state tensor; \<open>root_positions\<close>, \<open>root_quats\<close>,
  \<open>marker_positions\<close> are parts of their rows. \<open>forces\<close> has one row of
  \<open>bodies_per_env = 6\<close> force vectors per environment. The two logs record the calls
  made to the simulator: the index list of every \<open>set_actor_root_state_tensor_indexed\<close>
  and the force tensor of every \<open>apply_rigid_body_force_tensors\<close>.\<close>

record drone =
  num_envs :: nat
  max_episode_length :: int
  dt :: real
  root_states :: "actor_state list"
  marker_states :: "actor_state list"
  target_root_positions :: "vec3 list"
  initial_root_states :: "actor_state list"
  initial_marker_states :: "actor_state list"
  thrusts :: "action list"
  forces :: "vec3 list list"
  reset_buf :: "int list"
  progress_buf :: "int list"
  sim_root_writes :: "nat list list"
  sim_force_calls :: "vec3 list list list"

definition thrust_lower_limit :: real where
  "thrust_lower_limit = 0"

definition thrust_upper_limit :: real where
  "thrust_upper_limit = 2000"

definition thrust_velocity_scale :: real where
  "thrust_velocity_scale = 2000"

text \<open>\<open>all_actor_indices = arange(num_envs * 2).reshape((num_envs, 2))\<close>: entry (i, k).\<close>

definition all_actor_indices :: "nat \<Rightarrow> nat \<Rightarrow> nat" where
  "all_actor_indices i k = 2 * i + k"

text \<open>Every per-environment buffer has leading dimension \<open>num_envs\<close>, as the constructor
  establishes.\<close>

definition wf_drone :: "drone \<Rightarrow> bool" where
  "wf_drone s \<longleftrightarrow>
     length (root_states s) = num_envs s \<and> length (marker_states s) = num_envs s \<and>
     length (target_root_positions s) = num_envs s \<and>
     length (initial_root_states s) = num_envs s \<and>
     length (initial_marker_states s) = num_envs s \<and>
     length (thrusts s) = num_envs s \<and> length (forces s) = num_envs s \<and>
     list_all (\<lambda>row. length row = 6) (forces s) \<and>
     length (reset_buf s) = num_envs s \<and> length (progress_buf s) = num_envs s"

section \<open>set_targets\<close>

definition set_xy :: "real \<times> real \<Rightarrow> vec3 \<Rightarrow> vec3" where
  "set_xy xy v = (fst xy, snd xy, vz v)"

definition set_x :: "real \<Rightarrow> vec3 \<Rightarrow> vec3" where
  "set_x x v = (x, vy v, vz v)"

definition set_y :: "real \<Rightarrow> vec3 \<Rightarrow> vec3" where
  "set_y y v = (vx v, y, vz v)"

definition set_z :: "real \<Rightarrow> vec3 \<Rightarrow> vec3" where
  "set_z z v = (vx v, vy v, z)"

definition set_targets :: "drone \<Rightarrow> nat list \<Rightarrow> error + (drone \<times> nat list)" where
  "set_targets s env_ids =
     (if list_ex (\<lambda>i. num_envs s \<le> i) env_ids then Inl IndexError
      else
        let num_sets = length env_ids;
            t1 = index_put set_xy env_ids (replicate num_sets (0 * 10 - 5, 0 * 10 - 5))
                   (target_root_positions s);
            t2 = index_put set_z env_ids (replicate num_sets (0 + 1)) t1;
            m1 = index_put (\<lambda>p m. m\<lparr>position := p\<rparr>) env_ids (map (\<lambda>i. t2 ! i) env_ids)
                   (marker_states s);
            m2 = index_put (\<lambda>z m. m\<lparr>position := set_z z (position m)\<rparr>) env_ids
                   (map (\<lambda>i. vz (position (m1 ! i)) + 0.0) env_ids) m1;
            actor_indices = map (\<lambda>i. all_actor_indices i 1) env_ids
        in Inr (s\<lparr>target_root_positions := t2, marker_states := m2\<rparr>, actor_indices))"

section \<open>reset_idx\<close>

text \<open>The plate quaternion is stored as \<open>[quat.w, quat.x, quat.y, quat.z]\<close> in slots 3:7.\<close>

definition wxyz :: "quat \<Rightarrow> quat" where
  "wxyz q = (case q of (qx, qy, qz, qw) \<Rightarrow> (qw, qx, qy, qz))"

definition reset_idx :: "drone \<Rightarrow> rng \<Rightarrow> nat list \<Rightarrow> bool \<Rightarrow> error + (drone \<times> nat list)" where
  "reset_idx s rnd env_ids reset_plates =
     (if list_ex (\<lambda>i. num_envs s \<le> i) env_ids then Inl IndexError
      else
        let num_resets = length env_ids;
            actor_indices = map (\<lambda>i. all_actor_indices i 0) env_ids;
            r0 = index_put (\<lambda>v _. v) env_ids (map (\<lambda>i. initial_root_states s ! i) env_ids)
                   (root_states s);
            r1 = index_put (\<lambda>x a. a\<lparr>position := set_x x (position a)\<rparr>) env_ids
                   (map2 (+) (map (\<lambda>i. vx (position (r0 ! i))) env_ids)
                      (torch_rand_float (- 1.5) 1.5 (map (rand_x rnd) [0..<num_resets]))) r0;
            r2 = index_put (\<lambda>y a. a\<lparr>position := set_y y (position a)\<rparr>) env_ids
                   (map2 (+) (map (\<lambda>i. vy (position (r1 ! i))) env_ids)
                      (torch_rand_float (- 1.5) 1.5 (map (rand_y rnd) [0..<num_resets]))) r1;
            r3 = index_put (\<lambda>z a. a\<lparr>position := set_z z (position a)\<rparr>) env_ids
                   (map2 (+) (map (\<lambda>i. vz (position (r2 ! i))) env_ids)
                      (torch_rand_float (- 0.2) 1.5 (map (rand_z rnd) [0..<num_resets]))) r2;
            m = (if reset_plates
                 then let plate_quats = map (\<lambda>i. wxyz (tilt_quat rnd i)) [0..<num_resets]
                      in index_put (\<lambda>q a. a\<lparr>orientation := q\<rparr>) env_ids plate_quats
                           (marker_states s)
                 else marker_states s);
            w = sim_root_writes s @ [actor_indices];
            rb = index_put (\<lambda>v _. v) env_ids (replicate num_resets 0) (reset_buf s);
            pb = index_put (\<lambda>v _. v) env_ids (replicate num_resets 0) (progress_buf s)
        in Inr (s\<lparr>root_states := r3, marker_states := m, reset_buf := rb, progress_buf := pb,
                  sim_root_writes := w\<rparr>,
                torch_unique actor_indices))"

section \<open>pre_physics_step\<close>

text \<open>The four clamped thrusts of one action row (\<open>thrust_prop_0\<close> .. \<open>thrust_prop_3\<close>).
  The local \<open>force_constant\<close> of \<open>pre_physics_step\<close> is computed and never used; it is
  left out.\<close>

definition thrust_props :: "action \<Rightarrow> action" where
  "thrust_props a =
     (case a of (a0, a1, a2, a3) \<Rightarrow>
        (clamp (a0 * thrust_velocity_scale) thrust_lower_limit thrust_upper_limit,
         clamp (a1 * thrust_velocity_scale) thrust_lower_limit thrust_upper_limit,
         clamp (a2 * thrust_velocity_scale) thrust_lower_limit thrust_upper_limit,
         clamp (a3 * thrust_velocity_scale) thrust_lower_limit thrust_upper_limit))"

text \<open>Assigning a tensor with \<open>k\<close> rows into a slice with \<open>n\<close> rows: the sizes agree, or the
  single row is broadcast; anything else is a shape error.\<close>

definition broadcast_rows :: "nat \<Rightarrow> 'a list \<Rightarrow> error + 'a list" where
  "broadcast_rows n xs =
     (if length xs = n then Inr xs
      else if length xs = 1 then Inr (replicate n (hd xs))
      else Inl ShapeError)"

text \<open>\<open>self.forces[:, 1, 2] = self.dt * thrust_prop_0\<close> and the three assignments after it,
  on the force row of one environment.\<close>

definition rotor_forces :: "real \<Rightarrow> action \<Rightarrow> vec3 list \<Rightarrow> vec3 list" where
  "rotor_forces dt' t row =
     (case t of (t0, t1, t2, t3) \<Rightarrow>
        let f1 = row[1 := set_z (dt' * t0) (row ! 1)];
            f2 = f1[2 := set_z (dt' * t1) (f1 ! 2)];
            f3 = f2[3 := set_z (dt' * t2) (f2 ! 3)];
            f4 = f3[4 := set_z (dt' * t3) (f3 ! 4)]
        in f4)"

definition pre_physics_step :: "drone \<Rightarrow> rng \<Rightarrow> action list \<Rightarrow> error + drone" where
  "pre_physics_step s rnd actions =
     (let set_target_ids = nonzero (\<lambda>p. p mod 500 = 0) (progress_buf s) in
      case (if length set_target_ids > 0 then set_targets s set_target_ids else Inr (s, [])) of
        Inl e \<Rightarrow> Inl e
      | Inr (s1, target_actor_indices) \<Rightarrow>
          let reset_env_ids = nonzero (\<lambda>r. r \<noteq> 0) (reset_buf s1) in
          case (if length reset_env_ids > 0
                then let reset_plates = list_all (\<lambda>i. progress_buf s1 ! i = 0) reset_env_ids
                     in reset_idx s1 rnd reset_env_ids reset_plates
                else Inr (s1, [])) of
            Inl e \<Rightarrow> Inl e
          | Inr (s2, actor_indices) \<Rightarrow>
              let reset_indices = torch_unique (target_actor_indices @ actor_indices);
                  s3 = (if length reset_indices > 0
                        then s2\<lparr>sim_root_writes := sim_root_writes s2 @ [reset_indices]\<rparr>
                        else s2)
              in case broadcast_rows (num_envs s3) (map thrust_props actions) of
                   Inl e \<Rightarrow> Inl e
                 | Inr thrust_rows \<Rightarrow>
                     let f1 = map2 (rotor_forces (dt s3)) thrust_rows (forces s3);
                         th = index_put (\<lambda>v _. v) reset_env_ids
                                (replicate (length reset_env_ids) (0, 0, 0, 0)) (thrusts s3);
                         f2 = index_put (\<lambda>v row. map (\<lambda>_. v) row) reset_env_ids
                                (replicate (length reset_env_ids) (0, 0, 0)) f1
                     in Inr (s3\<lparr>thrusts := th, forces := f2,
                                sim_force_calls := sim_force_calls s3 @ [f2]\<rparr>))"

section \<open>A two-environment example state\<close>

definition rest_row :: actor_state where
  "rest_row = \<lparr>position = (0, 0, 1), orientation = (0, 0, 0, 1), linvel = (0, 0, 0),
                angvel = (0, 0, 0)\<rparr>"

definition moved_row :: actor_state where
  "moved_row = \<lparr>position = (2, 3, 4), orientation = (1, 0, 0, 0), linvel = (1, 1, 1),
                 angvel = (0, 0, 5)\<rparr>"

definition demo :: "int list \<Rightarrow> int list \<Rightarrow> drone" where
  "demo rb pb =
     \<lparr>num_envs = 2, max_episode_length = 10, dt = 1 / 100,
      root_states = [moved_row, moved_row], marker_states = [rest_row, rest_row],
      target_root_positions = [(0, 0, 1), (0, 0, 1)],
      initial_root_states = [rest_row, rest_row], initial_marker_states = [rest_row, rest_row],
      thrusts = [(7, 7, 7, 7), (7, 7, 7, 7)],
      forces = [replicate 6 (1, 1, 1), replicate 6 (1, 1, 1)],
      reset_buf = rb, progress_buf = pb, sim_root_writes = [], sim_force_calls = []\<rparr>"

definition demo_rng :: rng where
  "demo_rng = \<lparr>rand_x = (\<lambda>k. 1 / 2), rand_y = (\<lambda>k. 0), rand_z = (\<lambda>k. 1 / 2),
                tilt_quat = (\<lambda>k. (0, 0, 0, 1))\<rparr>"

section \<open>Properties of the reward and termination evaluator\<close>

lemma compute_drone_reward_rows:
  assumes "length ps = n" "length ts = n" "length qs = n" "length lvs = n" "length avs = n"
    "length rb = n" "length pb = n"
  shows "compute_drone_reward ps ts qs lvs avs rb pb m =
         Inr (map (\<lambda>i. fst (drone_reward_row (ps ! i) (ts ! i) (qs ! i) (lvs ! i) (avs ! i)
                              (rb ! i) (pb ! i) m)) [0..<n],
              map (\<lambda>i. snd (drone_reward_row (ps ! i) (ts ! i) (qs ! i) (lvs ! i) (avs ! i)
                              (rb ! i) (pb ! i) m)) [0..<n])"
  using assms by (simp add: compute_drone_reward_def Let_def comp_def)

lemma float32_max_bounds: "64 < float32_max" "1 \<le> float32_max" "0 < float32_max"
  by (simp_all add: float32_max_def)

lemma fl_nonneg: "0 \<le> a \<Longrightarrow> fl a = (if a \<le> float32_max then Num a else PosInf)"
  using float32_max_bounds(3) by (simp add: fl_def)

lemma fsub_Num: "fsub (Num a) (Num b) = fl (a - b)"
  by (simp add: fsub_def)

lemma fmul_fl_square: "fmul (fl d) (fl d) = fl (d * d)"
proof -
  have big: "float32_max < d * d" if "float32_max < \<bar>d\<bar>"
  proof -
    have "float32_max * 1 \<le> float32_max * float32_max"
      using float32_max_bounds by (intro mult_left_mono) simp_all
    also have "\<dots> < \<bar>d\<bar> * \<bar>d\<bar>"
      using that float32_max_bounds(3) by (intro mult_strict_mono) simp_all
    finally show ?thesis by (simp add: abs_mult_self_eq)
  qed
  have nn: "0 \<le> d * d" by simp
  consider "float32_max < d" | "d < - float32_max" | "\<bar>d\<bar> \<le> float32_max" by linarith
  then show ?thesis
  proof cases
    case 1
    then have "float32_max < \<bar>d\<bar>" by simp
    from big [OF this] 1 show ?thesis by (simp add: fl_def)
  next
    case 2
    then have "float32_max < \<bar>d\<bar>" by simp
    from big [OF this] 2 float32_max_bounds(3) show ?thesis by (simp add: fl_def)
  next
    case 3
    then have "fl d = Num d" by (auto simp: fl_def)
    then show ?thesis by simp
  qed
qed

lemma fadd_fl_nonneg: "0 \<le> a \<Longrightarrow> 0 \<le> b \<Longrightarrow> fadd (fl a) (fl b) = fl (a + b)"
  using float32_max_bounds(3) by (auto simp: fl_def)

lemma fsqrt_fl_nonneg:
  "0 \<le> a \<Longrightarrow> fsqrt (fl a) = (if a \<le> float32_max then Num (sqrt a) else PosInf)"
  by (simp add: fl_nonneg)

lemma target_dist_closed:
  "target_dist t p =
     (if (vx t - vx p) * (vx t - vx p) + (vy t - vy p) * (vy t - vy p)
           + (vz t - vz p) * (vz t - vz p) \<le> float32_max
      then Num (sqrt ((vx t - vx p) * (vx t - vx p) + (vy t - vy p) * (vy t - vy p)
                      + (vz t - vz p) * (vz t - vz p)))
      else PosInf)"
  by (simp add: target_dist_def Let_def fsub_Num fmul_fl_square fadd_fl_nonneg fsqrt_fl_nonneg)

lemma fl_small: "\<bar>a\<bar> \<le> float32_max \<Longrightarrow> fl a = Num a"
  by (auto simp: fl_def)

lemma fdiv_by_fl:
  assumes "0 \<le> c" "c \<le> float32_max" "1 \<le> b"
  shows "\<exists>r. fdiv (Num c) (fl b) = Num r \<and> 0 \<le> r \<and> r \<le> c"
proof (cases "b \<le> float32_max")
  case True
  have "c * 1 \<le> c * b" using assms by (intro mult_left_mono) simp_all
  then have q: "0 \<le> c / b" "c / b \<le> c"
    using assms by (simp_all add: divide_le_eq)
  then have "fl (c / b) = Num (c / b)" using assms(2) by (intro fl_small) simp
  with True assms(3) q show ?thesis by (simp add: fl_nonneg)
next
  case False
  with assms show ?thesis by (simp add: fl_nonneg)
qed

lemma fmul_self_cases:
  assumes "x \<noteq> NaN"
  shows "\<exists>a. 0 \<le> a \<and> fmul x x = fl a"
proof (cases x)
  case (Num d)
  have "fmul (Num d) (Num d) = fl (d * d)" by simp
  moreover have "0 \<le> d * d" by simp
  ultimately show ?thesis using Num by blast
next
  case PosInf
  have "fmul PosInf PosInf = fl (float32_max + 1)" by (simp add: fl_def)
  moreover have "0 \<le> float32_max + 1" using float32_max_bounds(3) by simp
  ultimately show ?thesis using PosInf by blast
next
  case NegInf
  have "fmul NegInf NegInf = fl (float32_max + 1)" by (simp add: fl_def)
  moreover have "0 \<le> float32_max + 1" using float32_max_bounds(3) by simp
  ultimately show ?thesis using NegInf by blast
next
  case NaN
  with assms show ?thesis by simp
qed

lemma ratio_f32:
  assumes "x \<noteq> NaN" "0 \<le> c" "c \<le> float32_max"
  shows "\<exists>r. fdiv (Num c) (fadd (Num 1) (fmul x x)) = Num r \<and> 0 \<le> r \<and> r \<le> c"
proof -
  from fmul_self_cases [OF assms(1)] obtain a where a: "0 \<le> a" "fmul x x = fl a" by blast
  have one: "Num 1 = fl 1" using float32_max_bounds(2) by (simp add: fl_small)
  have "fadd (Num 1) (fmul x x) = fl (1 + a)"
    unfolding a(2) one using a(1) by (simp add: fadd_fl_nonneg)
  moreover have "1 \<le> 1 + a" using a(1) by simp
  ultimately show ?thesis using fdiv_by_fl [OF assms(2,3), of "1 + a"] by simp
qed

lemma target_dist_not_NaN: "target_dist t p \<noteq> NaN"
  by (simp add: target_dist_closed)

lemma fabs_not_NaN: "x \<noteq> NaN \<Longrightarrow> fabs x \<noteq> NaN"
  by (cases x) simp_all

lemma fsub_one_fl_not_NaN: "fsub (Num 1) (fl u) \<noteq> NaN"
  by (simp add: fsub_def fl_def)

lemma reward_row_bounds:
  "\<exists>r. fst (drone_reward_row p t q lv av rb pr m) = Num r \<and> 0 \<le> r \<and> r \<le> 9"
proof -
  have m3: "(3::real) \<le> float32_max" "(1::real) \<le> float32_max"
    using float32_max_bounds by simp_all
  obtain a where a: "fdiv (Num 3) (fadd (Num 1) (fmul (target_dist t p) (target_dist t p))) = Num a"
      "0 \<le> a" "a \<le> 3"
    using ratio_f32 [OF target_dist_not_NaN, of 3 t p] m3 by auto
  obtain b where b: "fdiv (Num 1) (fadd (Num 1)
        (fmul (fabs (fsub (Num 1) (fl (vz (quat_axis q 2)))))
              (fabs (fsub (Num 1) (fl (vz (quat_axis q 2))))))) = Num b" "0 \<le> b" "b \<le> 1"
    using ratio_f32 [OF fabs_not_NaN [OF fsub_one_fl_not_NaN], of 1 "vz (quat_axis q 2)"] m3
    by auto
  obtain c where c: "fdiv (Num 1) (fadd (Num 1)
        (fmul (fabs (Num (vz av))) (fabs (Num (vz av))))) = Num c" "0 \<le> c" "c \<le> 1"
    using ratio_f32 [of "fabs (Num (vz av))" 1] m3 by auto
  have bc: "fadd (Num b) (Num c) = Num (b + c)"
    using b c float32_max_bounds by (simp add: fl_small)
  have "a * (b + c) \<le> 3 * (1 + 1)"
    using a b c by (intro mult_mono add_mono) simp_all
  then have le: "a * (b + c) \<le> 6" by simp
  have nn: "0 \<le> a * (b + c)" using a b c by simp
  have prod: "fmul (Num a) (Num (b + c)) = Num (a * (b + c))"
    using le nn float32_max_bounds by (simp add: fl_small)
  have total: "fadd (Num a) (Num (a * (b + c))) = Num (a + a * (b + c))"
    using le nn a float32_max_bounds by (simp add: fl_small)
  have n: "(3.0::real) = 3" "(1.0::real) = 1" by simp_all
  have "fst (drone_reward_row p t q lv av rb pr m) = Num (a + a * (b + c))"
    unfolding drone_reward_row_def Let_def n fst_conv
    by (simp only: a(1) b(1) c(1) bc prod total)
  moreover have "0 \<le> a + a * (b + c)" "a + a * (b + c) \<le> 9" using a nn le by simp_all
  ultimately show ?thesis by blast
qed



text \<open>C1 (as amended). For a batch of \<open>n\<close> environments with buffers of equal leading
  dimension, \<open>compute_drone_reward\<close> returns, and every per-environment reward is a finite
  number that is at least 0 and at most 9 (3 from \<open>pos_reward\<close> plus \<open>pos_reward\<close>
  times the two bonuses of at most 1 each).\<close>

theorem reward_between_zero_and_nine:
  assumes "length ps = n" "length ts = n" "length qs = n" "length lvs = n" "length avs = n"
    "length rb = n" "length pb = n" "i < n"
  shows "\<exists>rew rst r. compute_drone_reward ps ts qs lvs avs rb pb m = Inr (rew, rst) \<and>
           length rew = n \<and> rew ! i = Num r \<and> 0 \<le> r \<and> r \<le> 9"
  using assms reward_row_bounds
  by (simp add: compute_drone_reward_rows [of ps n ts qs lvs avs rb pb m])

theorem reward_between_zero_and_nine_witness:
  "\<exists>rew rst r. compute_drone_reward [(0, 0, 1), (3, 4, 1)] [(0, 0, 1), (0, 0, 1)]
       [(0, 0, 0, 1), (0, 0, 0, 1)] [(0, 0, 0), (0, 0, 0)] [(0, 0, 0), (0, 0, 2)] [0, 0] [0, 3] 10
     = Inr (rew, rst) \<and> length rew = 2 \<and> rew ! 1 = Num r \<and> 0 \<le> r \<and> r \<le> 9"
  using reward_between_zero_and_nine [of "[(0, 0, 1), (3, 4, 1)]" 2 "[(0, 0, 1), (0, 0, 1)]"
       "[(0, 0, 0, 1), (0, 0, 0, 1)]" "[(0, 0, 0), (0, 0, 0)]" "[(0, 0, 0), (0, 0, 2)]" "[0, 0]"
       "[0, 3]" 1 10]
  by simp

text \<open>C1 as stated fails at both ends: an upright drone at rest on its target earns
  3 + 3 * (1 + 1) = 9, above the claimed bound of 6; and at the finite position
  x = 1e20 the squared distance overflows to infinity, so \<open>pos_reward\<close> and the
  reward are exactly 0, not greater than 0.\<close>

theorem reward_nine_and_reward_zero:
  "compute_drone_reward [(0, 0, 1)] [(0, 0, 1)] [(0, 0, 0, 1)] [(0, 0, 0)] [(0, 0, 0)] [0] [0] 10
     = Inr ([Num 9], [0]) \<and>
   compute_drone_reward [(100000000000000000000, 0, 1)] [(0, 0, 1)] [(0, 0, 0, 1)] [(0, 0, 0)]
       [(0, 0, 0)] [0] [0] 10
     = Inr ([Num 0], [1])"
  by (simp add: compute_drone_reward_def drone_reward_row_def target_dist_def fsub_def fl_def
      float32_max_def vx_def vy_def vz_def quat_axis_def quat_rotate_def Let_def)

text \<open>C2. An environment whose progress counter equals \<open>max_episode_length - 1\<close> gets
  reset 1, whatever its position, target, orientation and velocities are (that is,
  whatever \<open>die\<close> is).\<close>

theorem time_limit_forces_reset:
  assumes "length ps = n" "length ts = n" "length qs = n" "length lvs = n" "length avs = n"
    "length rb = n" "length pb = n" "i < n" "pb ! i = m - 1"
  shows "\<exists>rew rst. compute_drone_reward ps ts qs lvs avs rb pb m = Inr (rew, rst) \<and>
           length rst = n \<and> rst ! i = 1"
  using assms
  by (simp add: compute_drone_reward_rows [of ps n ts qs lvs avs rb pb m]
      drone_reward_row_def Let_def)

theorem time_limit_forces_reset_witness:
  "\<exists>rew rst. compute_drone_reward [(0, 0, 1), (0, 0, 0.3)] [(0, 0, 1), (0, 0, 1)]
       [(0, 0, 0, 1), (0, 0, 0, 1)] [(0, 0, 0), (0, 0, 0)] [(0, 0, 0), (0, 0, 0)] [0, 0] [9, 9] 10
     = Inr (rew, rst) \<and> length rst = 2 \<and> rst ! 0 = 1"
  using time_limit_forces_reset [of "[(0, 0, 1), (0, 0, 0.3)]" 2 "[(0, 0, 1), (0, 0, 1)]"
       "[(0, 0, 0, 1), (0, 0, 0, 1)]" "[(0, 0, 0), (0, 0, 0)]" "[(0, 0, 0), (0, 0, 0)]" "[0, 0]"
       "[9, 9]" 0 10]
  by simp



section \<open>Indexed assignment, nonzero and unique\<close>

lemma index_put_Nil [simp]: "index_put f [] vals xs = xs"
  by (simp add: index_put_def)

lemma index_put_no_vals [simp]: "index_put f ids [] xs = xs"
  by (simp add: index_put_def)

lemma index_put_Cons [simp]:
  "index_put f (i # ids) (v # vals) xs = index_put f ids vals (xs[i := f v (xs ! i)])"
  by (simp add: index_put_def)

lemma length_index_put [simp]: "length (index_put f ids vals xs) = length xs"
proof (induction ids arbitrary: vals xs)
  case Nil
  show ?case by simp
next
  case (Cons i ids)
  show ?case by (cases vals) (simp_all add: Cons.IH)
qed

lemma index_put_other: "j \<notin> set ids \<Longrightarrow> index_put f ids vals xs ! j = xs ! j"
proof (induction ids arbitrary: vals xs)
  case Nil
  show ?case by simp
next
  case (Cons i ids)
  then show ?case by (cases vals) simp_all
qed

lemma index_put_nth:
  "distinct ids \<Longrightarrow> length vals = length ids \<Longrightarrow> k < length ids \<Longrightarrow> ids ! k < length xs \<Longrightarrow>
   index_put f ids vals xs ! (ids ! k) = f (vals ! k) (xs ! (ids ! k))"
proof (induction ids arbitrary: vals xs k)
  case Nil
  then show ?case by simp
next
  case (Cons i ids)
  then obtain v vs where vals: "vals = v # vs" by (cases vals) auto
  show ?case
  proof (cases k)
    case 0
    with Cons.prems vals show ?thesis by (simp add: index_put_other)
  next
    case (Suc k')
    with Cons.prems vals have k': "k' < length ids" and ne: "ids ! k' \<noteq> i"
      and d: "distinct ids" and l: "length vs = length ids" and r: "ids ! k' < length xs"
      by auto
    have "index_put f ids vs (xs[i := f v (xs ! i)]) ! (ids ! k')
          = f (vs ! k') (xs[i := f v (xs ! i)] ! (ids ! k'))"
      using Cons.IH [OF d l k', of "xs[i := f v (xs ! i)]"] r by simp
    with ne Suc vals show ?thesis by simp
  qed
qed

lemma index_put_map:
  assumes "distinct ids" "j < length xs"
  shows "index_put f ids (map g ids) xs ! j = (if j \<in> set ids then f (g j) (xs ! j) else xs ! j)"
proof (cases "j \<in> set ids")
  case False
  then show ?thesis by (simp add: index_put_other)
next
  case True
  then obtain k where k: "k < length ids" "ids ! k = j" by (auto simp: in_set_conv_nth)
  with index_put_nth [of ids "map g ids" k xs f] assms True show ?thesis by simp
qed

lemma index_put_replicate:
  assumes "distinct ids" "j < length xs"
  shows "index_put f ids (replicate (length ids) c) xs ! j
         = (if j \<in> set ids then f c (xs ! j) else xs ! j)"
  using index_put_map [OF assms, of f "\<lambda>_. c"] by (simp add: map_replicate_const)

lemma set_nonzero: "set (nonzero P xs) = {i. i < length xs \<and> P (xs ! i)}"
  by (auto simp: nonzero_def)

lemma distinct_nonzero: "distinct (nonzero P xs)"
  by (simp add: nonzero_def)

lemma nonzero_in_range: "\<not> list_ex (\<lambda>i. length xs \<le> i) (nonzero P xs)"
  by (auto simp: list_ex_iff set_nonzero)

lemma set_torch_unique: "set (torch_unique xs) = set xs"
  by (simp add: torch_unique_def)

lemma torch_unique_sorted_distinct: "sorted (torch_unique xs) \<and> distinct (torch_unique xs)"
  by (simp add: torch_unique_def)


section \<open>The results of set_targets and reset_idx\<close>

lemma torch_rand_float_nth:
  "k < n \<Longrightarrow> torch_rand_float lo hi (map u [0..<n]) ! k = (hi - lo) * u k + lo"
  by (simp add: torch_rand_float_def)

lemma length_torch_rand_float [simp]: "length (torch_rand_float lo hi us) = length us"
  by (simp add: torch_rand_float_def)

lemma set_targets_result:
  assumes "distinct ids" "\<not> list_ex (\<lambda>i. num_envs s \<le> i) ids"
    "length (target_root_positions s) = num_envs s" "length (marker_states s) = num_envs s"
  shows "set_targets s ids =
     Inr (s\<lparr>target_root_positions :=
              map (\<lambda>j. if j \<in> set ids then (- 5, - 5, 1) else target_root_positions s ! j)
                [0..<num_envs s],
            marker_states :=
              map (\<lambda>j. if j \<in> set ids then (marker_states s ! j)\<lparr>position := (- 5, - 5, 1)\<rparr>
                        else marker_states s ! j) [0..<num_envs s]\<rparr>,
          map (\<lambda>i. all_actor_indices i 1) ids)"
proof -
  define t1 where "t1 = index_put set_xy ids (replicate (length ids) (0 * 10 - 5, 0 * 10 - 5))
                   (target_root_positions s)"
  define t2 where "t2 = index_put set_z ids (replicate (length ids) (0 + 1)) t1"
  define m1 where "m1 = index_put (\<lambda>p m. m\<lparr>position := p\<rparr>) ids (map (\<lambda>i. t2 ! i) ids)
                   (marker_states s)"
  define m2 where "m2 = index_put (\<lambda>z m. m\<lparr>position := set_z z (position m)\<rparr>) ids
                   (map (\<lambda>i. vz (position (m1 ! i)) + 0.0) ids) m1"
  have len: "length t1 = num_envs s" "length t2 = num_envs s" "length m1 = num_envs s"
    "length m2 = num_envs s"
    using assms by (simp_all add: t1_def t2_def m1_def m2_def)
  have t1: "t1 ! j = (if j \<in> set ids then set_xy (- 5, - 5) (target_root_positions s ! j)
                      else target_root_positions s ! j)" if "j < num_envs s" for j
    unfolding t1_def using that assms by (simp add: index_put_replicate)
  have t2: "t2 ! j = (if j \<in> set ids then (- 5, - 5, 1) else target_root_positions s ! j)"
    if "j < num_envs s" for j
    unfolding t2_def using that assms len t1 [OF that]
    by (simp add: index_put_replicate set_z_def set_xy_def vx_def vy_def)
  have m1: "m1 ! j = (if j \<in> set ids then (marker_states s ! j)\<lparr>position := (- 5, - 5, 1)\<rparr>
                      else marker_states s ! j)" if "j < num_envs s" for j
    unfolding m1_def using that assms t2 [OF that] by (simp add: index_put_map)
  have m2: "m2 ! j = (if j \<in> set ids then (marker_states s ! j)\<lparr>position := (- 5, - 5, 1)\<rparr>
                      else marker_states s ! j)" if "j < num_envs s" for j
    unfolding m2_def using that assms len m1 [OF that]
    by (simp add: index_put_map set_z_def vx_def vy_def vz_def)
  have T: "t2 = map (\<lambda>j. if j \<in> set ids then (- 5, - 5, 1) else target_root_positions s ! j)
                [0..<num_envs s]"
    by (rule nth_equalityI) (simp_all add: len t2)
  have M: "m2 = map (\<lambda>j. if j \<in> set ids then (marker_states s ! j)\<lparr>position := (- 5, - 5, 1)\<rparr>
                        else marker_states s ! j) [0..<num_envs s]"
    by (rule nth_equalityI) (simp_all add: len m2)
  have "set_targets s ids =
          Inr (s\<lparr>target_root_positions := t2, marker_states := m2\<rparr>,
               map (\<lambda>i. all_actor_indices i 1) ids)"
    using assms(2) by (simp add: set_targets_def Let_def t1_def t2_def m1_def m2_def)
  then show ?thesis by (simp only: T [symmetric] M [symmetric])
qed


lemma reset_idx_result:
  assumes d: "distinct ids" and r: "\<not> list_ex (\<lambda>i. num_envs s \<le> i) ids"
    and l: "length (root_states s) = num_envs s"
  shows "\<exists>R. reset_idx s rnd ids rp =
           Inr (s\<lparr>root_states := R,
                  marker_states :=
                    (if rp then index_put (\<lambda>q a. a\<lparr>orientation := q\<rparr>) ids
                                  (map (\<lambda>i. wxyz (tilt_quat rnd i)) [0..<length ids])
                                  (marker_states s)
                     else marker_states s),
                  reset_buf := index_put (\<lambda>v _. v) ids (replicate (length ids) 0) (reset_buf s),
                  progress_buf :=
                    index_put (\<lambda>v _. v) ids (replicate (length ids) 0) (progress_buf s),
                  sim_root_writes := sim_root_writes s @ [map (\<lambda>i. all_actor_indices i 0) ids]\<rparr>,
                torch_unique (map (\<lambda>i. all_actor_indices i 0) ids)) \<and>
         length R = num_envs s \<and>
         (\<forall>j. j \<notin> set ids \<longrightarrow> R ! j = root_states s ! j) \<and>
         (\<forall>k<length ids. R ! (ids ! k) =
            (initial_root_states s ! (ids ! k))
              \<lparr>position :=
                 (vx (position (initial_root_states s ! (ids ! k))) + ((1.5 - (- 1.5)) * rand_x rnd k + (- 1.5)),
                  vy (position (initial_root_states s ! (ids ! k))) + ((1.5 - (- 1.5)) * rand_y rnd k + (- 1.5)),
                  vz (position (initial_root_states s ! (ids ! k))) + ((1.5 - (- 0.2)) * rand_z rnd k + (- 0.2)))\<rparr>)"
proof -
  define n where "n = length ids"
  define r0 where "r0 = index_put (\<lambda>v _. v) ids (map (\<lambda>i. initial_root_states s ! i) ids)
                   (root_states s)"
  define r1 where "r1 = index_put (\<lambda>x a. a\<lparr>position := set_x x (position a)\<rparr>) ids
                   (map2 (+) (map (\<lambda>i. vx (position (r0 ! i))) ids)
                      (torch_rand_float (- 1.5) 1.5 (map (rand_x rnd) [0..<n]))) r0"
  define r2 where "r2 = index_put (\<lambda>y a. a\<lparr>position := set_y y (position a)\<rparr>) ids
                   (map2 (+) (map (\<lambda>i. vy (position (r1 ! i))) ids)
                      (torch_rand_float (- 1.5) 1.5 (map (rand_y rnd) [0..<n]))) r1"
  define r3 where "r3 = index_put (\<lambda>z a. a\<lparr>position := set_z z (position a)\<rparr>) ids
                   (map2 (+) (map (\<lambda>i. vz (position (r2 ! i))) ids)
                      (torch_rand_float (- 0.2) 1.5 (map (rand_z rnd) [0..<n]))) r2"
  have len: "length r0 = num_envs s" "length r1 = num_envs s" "length r2 = num_envs s"
    "length r3 = num_envs s"
    using l by (simp_all add: r0_def r1_def r2_def r3_def)
  have rng: "ids ! k < num_envs s" if "k < n" for k
  proof -
    from that have "ids ! k \<in> set ids" by (simp add: n_def)
    with r show ?thesis by (auto simp: list_ex_iff)
  qed
  have other: "r3 ! j = root_states s ! j" if "j \<notin> set ids" for j
    using that by (simp add: r0_def r1_def r2_def r3_def index_put_other)
  have h0: "r0 ! (ids ! k) = initial_root_states s ! (ids ! k)" if "k < n" for k
    unfolding r0_def using that d l rng [OF that]
    by (simp add: n_def index_put_nth)
  have h1: "r1 ! (ids ! k) = (r0 ! (ids ! k))
      \<lparr>position := set_x (vx (position (r0 ! (ids ! k))) + ((1.5 - (- 1.5)) * rand_x rnd k + (- 1.5)))
                     (position (r0 ! (ids ! k)))\<rparr>" if "k < n" for k
    unfolding r1_def using that d len rng [OF that]
    by (simp add: n_def torch_rand_float_nth index_put_nth)
  have h2: "r2 ! (ids ! k) = (r1 ! (ids ! k))
      \<lparr>position := set_y (vy (position (r1 ! (ids ! k))) + ((1.5 - (- 1.5)) * rand_y rnd k + (- 1.5)))
                     (position (r1 ! (ids ! k)))\<rparr>" if "k < n" for k
    unfolding r2_def using that d len rng [OF that]
    by (simp add: n_def torch_rand_float_nth index_put_nth)
  have h3: "r3 ! (ids ! k) = (r2 ! (ids ! k))
      \<lparr>position := set_z (vz (position (r2 ! (ids ! k))) + ((1.5 - (- 0.2)) * rand_z rnd k + (- 0.2)))
                     (position (r2 ! (ids ! k)))\<rparr>" if "k < n" for k
    unfolding r3_def using that d len rng [OF that]
    by (simp add: n_def torch_rand_float_nth index_put_nth)
  have hit: "r3 ! (ids ! k) =
            (initial_root_states s ! (ids ! k))
              \<lparr>position :=
                 (vx (position (initial_root_states s ! (ids ! k))) + ((1.5 - (- 1.5)) * rand_x rnd k + (- 1.5)),
                  vy (position (initial_root_states s ! (ids ! k))) + ((1.5 - (- 1.5)) * rand_y rnd k + (- 1.5)),
                  vz (position (initial_root_states s ! (ids ! k))) + ((1.5 - (- 0.2)) * rand_z rnd k + (- 0.2)))\<rparr>"
    if "k < n" for k
    by (simp add: h3 [OF that] h2 [OF that] h1 [OF that] h0 [OF that] set_x_def set_y_def set_z_def
        vx_def vy_def vz_def)
  have "reset_idx s rnd ids rp =
           Inr (s\<lparr>root_states := r3,
                  marker_states :=
                    (if rp then index_put (\<lambda>q a. a\<lparr>orientation := q\<rparr>) ids
                                  (map (\<lambda>i. wxyz (tilt_quat rnd i)) [0..<length ids])
                                  (marker_states s)
                     else marker_states s),
                  reset_buf := index_put (\<lambda>v _. v) ids (replicate (length ids) 0) (reset_buf s),
                  progress_buf :=
                    index_put (\<lambda>v _. v) ids (replicate (length ids) 0) (progress_buf s),
                  sim_root_writes := sim_root_writes s @ [map (\<lambda>i. all_actor_indices i 0) ids]\<rparr>,
                torch_unique (map (\<lambda>i. all_actor_indices i 0) ids))"
    using r by (simp add: reset_idx_def Let_def r0_def r1_def r2_def r3_def n_def)
  with len other hit show ?thesis by (auto simp: n_def)
qed

section \<open>The result of pre_physics_step\<close>

lemma broadcast_rows_thrusts:
  assumes "length actions = n \<or> length actions = 1"
  shows "broadcast_rows n (map thrust_props actions) =
         Inr (if length actions = n then map thrust_props actions
              else replicate n (thrust_props (hd actions)))"
proof (cases "length actions = n")
  case True
  then show ?thesis by (simp add: broadcast_rows_def)
next
  case False
  with assms have "length actions = 1" by simp
  then obtain a where "actions = [a]" by (cases actions) auto
  with False show ?thesis by (simp add: broadcast_rows_def)
qed

lemma pre_physics_step_result:
  assumes wf: "wf_drone s" and acts: "length actions = num_envs s \<or> length actions = 1"
  defines "ST \<equiv> nonzero (\<lambda>p. p mod 500 = 0) (progress_buf s)"
    and "RS \<equiv> nonzero (\<lambda>r. r \<noteq> 0) (reset_buf s)"
  defines "M1 \<equiv> map (\<lambda>j. if j \<in> set ST then (marker_states s ! j)\<lparr>position := (- 5, - 5, 1)\<rparr>
                         else marker_states s ! j) [0..<num_envs s]"
    and "A \<equiv> map (\<lambda>i. all_actor_indices i 1) ST"
    and "B \<equiv> map (\<lambda>i. all_actor_indices i 0) RS"
    and "rows \<equiv> (if length actions = num_envs s then map thrust_props actions
                  else replicate (num_envs s) (thrust_props (hd actions)))"
  shows "\<exists>s'. pre_physics_step s rnd actions = Inr s' \<and>
           num_envs s' = num_envs s \<and>
           target_root_positions s' =
             map (\<lambda>j. if j \<in> set ST then (- 5, - 5, 1) else target_root_positions s ! j)
               [0..<num_envs s] \<and>
           marker_states s' =
             (if RS \<noteq> [] \<and> list_all (\<lambda>i. progress_buf s ! i = 0) RS
              then index_put (\<lambda>q a. a\<lparr>orientation := q\<rparr>) RS
                     (map (\<lambda>i. wxyz (tilt_quat rnd i)) [0..<length RS]) M1
              else M1) \<and>
           sim_root_writes s' =
             sim_root_writes s @ (if RS \<noteq> [] then [B] else []) @
               (if torch_unique (A @ (if RS \<noteq> [] then torch_unique B else [])) \<noteq> []
                then [torch_unique (A @ (if RS \<noteq> [] then torch_unique B else []))] else []) \<and>
           thrusts s' = index_put (\<lambda>v _. v) RS (replicate (length RS) (0, 0, 0, 0)) (thrusts s) \<and>
           forces s' = index_put (\<lambda>v row. map (\<lambda>_. v) row) RS (replicate (length RS) (0, 0, 0))
                         (map2 (rotor_forces (dt s)) rows (forces s)) \<and>
           sim_force_calls s' = sim_force_calls s @ [forces s']"
proof -
  define T where "T = map (\<lambda>j. if j \<in> set ST then (- 5, - 5, 1) else target_root_positions s ! j)
               [0..<num_envs s]"
  define s1 where "s1 = s\<lparr>target_root_positions := T, marker_states := M1\<rparr>"
  from wf have len: "length (target_root_positions s) = num_envs s"
    "length (marker_states s) = num_envs s" "length (root_states s) = num_envs s"
    "length (reset_buf s) = num_envs s" "length (progress_buf s) = num_envs s"
    by (simp_all add: wf_drone_def)
  have ST_ok: "distinct ST" "\<not> list_ex (\<lambda>i. num_envs s \<le> i) ST"
    using nonzero_in_range [of "progress_buf s"] len by (simp_all add: ST_def distinct_nonzero)
  have RS_ok: "distinct RS" "\<not> list_ex (\<lambda>i. num_envs s1 \<le> i) RS"
    using nonzero_in_range [of "reset_buf s"] len by (simp_all add: RS_def distinct_nonzero s1_def)
  have step1: "(if length ST > 0 then set_targets s ST else Inr (s, [])) = Inr (s1, A)"
  proof (cases "ST = []")
    case True
    have "T = target_root_positions s"
      by (rule nth_equalityI) (simp_all add: T_def True len)
    moreover have "M1 = marker_states s"
      by (rule nth_equalityI) (simp_all add: M1_def True len)
    ultimately have "T = target_root_positions s" "M1 = marker_states s" .
    then show ?thesis using True by (simp add: s1_def A_def)
  next
    case False
    then show ?thesis
      using set_targets_result [OF ST_ok len(1,2)] by (simp add: s1_def T_def M1_def A_def)
  qed
  have s1_sel: "reset_buf s1 = reset_buf s" "progress_buf s1 = progress_buf s"
    "root_states s1 = root_states s" "marker_states s1 = M1" "num_envs s1 = num_envs s"
    by (simp_all add: s1_def)
  define rp where "rp = list_all (\<lambda>i. progress_buf s ! i = 0) RS"
  obtain R where R: "reset_idx s1 rnd RS rp =
           Inr (s1\<lparr>root_states := R,
                  marker_states :=
                    (if rp then index_put (\<lambda>q a. a\<lparr>orientation := q\<rparr>) RS
                                  (map (\<lambda>i. wxyz (tilt_quat rnd i)) [0..<length RS])
                                  (marker_states s1)
                     else marker_states s1),
                  reset_buf := index_put (\<lambda>v _. v) RS (replicate (length RS) 0) (reset_buf s1),
                  progress_buf :=
                    index_put (\<lambda>v _. v) RS (replicate (length RS) 0) (progress_buf s1),
                  sim_root_writes := sim_root_writes s1 @ [map (\<lambda>i. all_actor_indices i 0) RS]\<rparr>,
                torch_unique (map (\<lambda>i. all_actor_indices i 0) RS))"
    using reset_idx_result [OF RS_ok, of rnd rp] len by (auto simp: s1_sel)
  define s2 where "s2 = (if RS \<noteq> [] then
              s1\<lparr>root_states := R,
                  marker_states :=
                    (if rp then index_put (\<lambda>q a. a\<lparr>orientation := q\<rparr>) RS
                                  (map (\<lambda>i. wxyz (tilt_quat rnd i)) [0..<length RS]) M1
                     else M1),
                  reset_buf := index_put (\<lambda>v _. v) RS (replicate (length RS) 0) (reset_buf s),
                  progress_buf :=
                    index_put (\<lambda>v _. v) RS (replicate (length RS) 0) (progress_buf s),
                  sim_root_writes := sim_root_writes s @ [B]\<rparr>
              else s1)"
  define B' where "B' = (if RS \<noteq> [] then torch_unique B else [])"
  have step2: "(if length (nonzero (\<lambda>r. r \<noteq> 0) (reset_buf s1)) > 0
                then reset_idx s1 rnd (nonzero (\<lambda>r. r \<noteq> 0) (reset_buf s1))
                       (list_all (\<lambda>i. progress_buf s1 ! i = 0)
                          (nonzero (\<lambda>r. r \<noteq> 0) (reset_buf s1)))
                else Inr (s1, [])) = Inr (s2, B')"
    using R by (simp add: s1_sel RS_def [symmetric] rp_def [symmetric] s2_def B'_def B_def s1_def)
  define U where "U = torch_unique (A @ B')"
  define s3 where "s3 = (if length U > 0 then s2\<lparr>sim_root_writes := sim_root_writes s2 @ [U]\<rparr>
                         else s2)"
  have s3_alt: "(if 0 < length (torch_unique (A @ B'))
                 then s2\<lparr>sim_root_writes := sim_root_writes s2 @ [torch_unique (A @ B')]\<rparr>
                 else s2) = s3"
    by (simp add: s3_def U_def)
  have s3_sel: "num_envs s3 = num_envs s" "dt s3 = dt s" "forces s3 = forces s"
    "thrusts s3 = thrusts s" "sim_force_calls s3 = sim_force_calls s"
    "target_root_positions s3 = T"
    "marker_states s3 = (if RS \<noteq> [] \<and> rp
              then index_put (\<lambda>q a. a\<lparr>orientation := q\<rparr>) RS
                     (map (\<lambda>i. wxyz (tilt_quat rnd i)) [0..<length RS]) M1
              else M1)"
    "sim_root_writes s3 = sim_root_writes s @ (if RS \<noteq> [] then [B] else []) @
               (if U \<noteq> [] then [U] else [])"
    by (simp_all add: s3_def s2_def s1_def)
  define f2 where "f2 = index_put (\<lambda>v row. map (\<lambda>_. v) row) RS (replicate (length RS) (0, 0, 0))
                         (map2 (rotor_forces (dt s)) rows (forces s))"
  define s4 where "s4 = s3\<lparr>thrusts := index_put (\<lambda>v _. v) RS (replicate (length RS) (0, 0, 0, 0))
                                        (thrusts s),
                           forces := f2, sim_force_calls := sim_force_calls s @ [f2]\<rparr>"
  have bc: "broadcast_rows (num_envs s) (map thrust_props actions) = Inr rows"
    using broadcast_rows_thrusts [OF acts] by (simp add: rows_def)
  have "pre_physics_step s rnd actions = Inr s4"
    unfolding pre_physics_step_def Let_def ST_def [symmetric] step1
    apply (simp only: sum.case prod.case step2 s3_alt)
    apply (simp add: bc s3_sel s4_def f2_def RS_def s1_sel)
    done
  moreover have "num_envs s4 = num_envs s" "target_root_positions s4 = T"
    "marker_states s4 = marker_states s3" "sim_root_writes s4 = sim_root_writes s3"
    "thrusts s4 = index_put (\<lambda>v _. v) RS (replicate (length RS) (0, 0, 0, 0)) (thrusts s)"
    "forces s4 = f2" "sim_force_calls s4 = sim_force_calls s @ [forces s4]"
    by (simp_all add: s4_def s3_sel)
  ultimately show ?thesis
    by (simp add: s3_sel T_def f2_def U_def B'_def rp_def)
qed

section \<open>Further facts used below\<close>

lemma wf_demo: "wf_drone (demo [a, b] [c, d])"
  by (simp add: wf_drone_def demo_def)

lemma upt_2: "[0..<2] = [0, 1]"
  by (simp add: upt_rec)

lemma index_put_keeps:
  assumes "\<And>v a. g (f v a) = g a" "j < length xs"
  shows "g (index_put f ids vals xs ! j) = g (xs ! j)"
  using assms(2)
proof (induction ids arbitrary: vals xs)
  case Nil
  show ?case by simp
next
  case (Cons i ids)
  show ?case
  proof (cases vals)
    case Nil
    then show ?thesis by simp
  next
    case (Cons v vs)
    have "g (index_put f ids vs (xs[i := f v (xs ! i)]) ! j) = g (xs[i := f v (xs ! i)] ! j)"
      using Cons.IH [of "xs[i := f v (xs ! i)]" vs] Cons.prems by simp
    also have "\<dots> = g (xs ! j)"
      using Cons.prems assms(1) by (cases "i = j") simp_all
    finally show ?thesis using Cons by simp
  qed
qed

lemma clamp_bounds: "lo \<le> hi \<Longrightarrow> lo \<le> clamp x lo hi \<and> clamp x lo hi \<le> hi"
  by (simp add: clamp_def)

lemma length_rotor_forces [simp]: "length (rotor_forces d t row) = length row"
  by (cases t) (simp add: rotor_forces_def Let_def)

section \<open>Properties of the step functions\<close>

text \<open>C4. On a tick of a well-formed state, the plate (marker) orientation is overwritten
  with freshly sampled tilt quaternions exactly when every environment of the reset set
  has progress counter 0 on entering the tick, and then for the environments of the reset
  set only; otherwise the orientation of every environment's plate is what it was.\<close>

theorem plates_rerandomized_iff_all_progress_zero:
  assumes "wf_drone s" "length actions = num_envs s \<or> length actions = 1"
  shows "\<exists>s'. pre_physics_step s rnd actions = Inr s' \<and>
           (if list_all (\<lambda>i. progress_buf s ! i = 0) (nonzero (\<lambda>r. r \<noteq> 0) (reset_buf s))
            then (\<forall>k<length (nonzero (\<lambda>r. r \<noteq> 0) (reset_buf s)).
                    orientation (marker_states s' ! (nonzero (\<lambda>r. r \<noteq> 0) (reset_buf s) ! k))
                      = wxyz (tilt_quat rnd k)) \<and>
                 (\<forall>i<num_envs s. i \<notin> set (nonzero (\<lambda>r. r \<noteq> 0) (reset_buf s)) \<longrightarrow>
                    orientation (marker_states s' ! i) = orientation (marker_states s ! i))
            else (\<forall>i<num_envs s.
                    orientation (marker_states s' ! i) = orientation (marker_states s ! i)))"
proof -
  define RS where "RS = nonzero (\<lambda>r. r \<noteq> 0) (reset_buf s)"
  define ST where "ST = nonzero (\<lambda>p. p mod 500 = 0) (progress_buf s)"
  define M1 where "M1 = map (\<lambda>j. if j \<in> set ST then (marker_states s ! j)\<lparr>position := (- 5, - 5, 1)\<rparr>
                         else marker_states s ! j) [0..<num_envs s]"
  from assms(1) have len: "length (reset_buf s) = num_envs s" by (simp add: wf_drone_def)
  obtain s' where run: "pre_physics_step s rnd actions = Inr s'"
    and M: "marker_states s' =
             (if RS \<noteq> [] \<and> list_all (\<lambda>i. progress_buf s ! i = 0) RS
              then index_put (\<lambda>q a. a\<lparr>orientation := q\<rparr>) RS
                     (map (\<lambda>i. wxyz (tilt_quat rnd i)) [0..<length RS]) M1
              else M1)"
    using pre_physics_step_result [OF assms, of rnd] unfolding RS_def ST_def M1_def by blast
  have M1: "length M1 = num_envs s" "\<And>i. i < num_envs s \<Longrightarrow> orientation (M1 ! i) = orientation (marker_states s ! i)"
    by (simp_all add: M1_def)
  have RS: "distinct RS" "\<And>k. k < length RS \<Longrightarrow> RS ! k < num_envs s"
  proof -
    show "distinct RS" by (simp add: RS_def distinct_nonzero)
    fix k assume "k < length RS"
    then have "RS ! k \<in> set RS" by simp
    then show "RS ! k < num_envs s" using len by (simp add: RS_def set_nonzero)
  qed
  show ?thesis
  proof (cases "list_all (\<lambda>i. progress_buf s ! i = 0) RS")
    case False
    then have "marker_states s' = M1" using M by simp
    with run False M1 show ?thesis by (simp add: RS_def [symmetric])
  next
    case True
    have hit: "orientation (marker_states s' ! (RS ! k)) = wxyz (tilt_quat rnd k)"
      if "k < length RS" for k
    proof -
      from that have "RS \<noteq> []" by auto
      with True M have "marker_states s' = index_put (\<lambda>q a. a\<lparr>orientation := q\<rparr>) RS
                     (map (\<lambda>i. wxyz (tilt_quat rnd i)) [0..<length RS]) M1" by simp
      then show ?thesis using that RS M1(1) by (simp add: index_put_nth)
    qed
    have miss: "orientation (marker_states s' ! i) = orientation (marker_states s ! i)"
      if "i < num_envs s" "i \<notin> set RS" for i
      using M M1(2) [OF that(1)] that(2) by (simp add: index_put_other)
    from run True hit miss show ?thesis by (simp add: RS_def [symmetric])
  qed
qed

theorem plates_rerandomized_iff_all_progress_zero_witness:
  "\<exists>s'. pre_physics_step (demo [1, 1] [0, 0]) demo_rng [(0, 0, 0, 0), (0, 0, 0, 0)] = Inr s' \<and>
         orientation (marker_states s' ! 1) = (1, 0, 0, 0)"
proof -
  have wf: "wf_drone (demo [1, 1] [0, 0])" by (rule wf_demo)
  have acts: "length [(0, 0, 0, 0), (0, 0, 0, 0) :: action] = num_envs (demo [1, 1] [0, 0])
              \<or> length [(0, 0, 0, 0), (0, 0, 0, 0) :: action] = 1"
    by (simp add: demo_def)
  have nz: "nonzero (\<lambda>r. r \<noteq> 0) (reset_buf (demo [1, 1] [0, 0])) = [0, 1]"
    by (simp add: nonzero_def demo_def upt_2)
  have pz: "progress_buf (demo [1, 1] [0, 0]) = [0, 0]" by (simp add: demo_def)
  from plates_rerandomized_iff_all_progress_zero [OF wf acts, of demo_rng]
  obtain s' where run: "pre_physics_step (demo [1, 1] [0, 0]) demo_rng [(0, 0, 0, 0), (0, 0, 0, 0)]
                        = Inr s'"
    and H: "\<forall>k<2. orientation (marker_states s' ! ([0, 1] ! k)) = wxyz (tilt_quat demo_rng k)"
    unfolding nz pz by auto
  from H have "orientation (marker_states s' ! 1) = (1, 0, 0, 0)"
    by (auto simp: wxyz_def demo_rng_def dest: spec [of _ 1])
  with run show ?thesis by blast
qed

text \<open>C5. On a tick on which environment 0 is reset, two indexed root-state writes reach
  the simulator: the one inside \<open>reset_idx\<close> with the drone actor index, then the combined
  one with the same index. A tick on which only a target is due (environment 0 at
  progress 500) makes the single combined write with the marker actor index, since
  \<open>set_targets\<close> only returns its indices.\<close>

theorem reset_tick_writes_root_state_twice:
  "map_sum id sim_root_writes
     (pre_physics_step (demo [1, 0] [3, 7]) demo_rng [(0, 0, 0, 0), (0, 0, 0, 0)])
     = Inr [[0], [0]] \<and>
   map_sum id sim_root_writes
     (pre_physics_step (demo [0, 0] [500, 7]) demo_rng [(0, 0, 0, 0), (0, 0, 0, 0)])
     = Inr [[1]]"
  by (simp add: pre_physics_step_def Let_def nonzero_def demo_def upt_2 reset_idx_def
      set_targets_def torch_unique_def broadcast_rows_def all_actor_indices_def)

text \<open>C6. For every flagged environment (the k-th of distinct in-range \<open>env_ids\<close>), with
  raw samples of the unit interval, after \<open>reset_idx\<close> the position is the snapshot
  position plus the k-th entries of the three \<open>torch_rand_float\<close> draws, which lie in
  [-1.5, 1.5] for x and y and in [-0.2, 1.5] for z; linear
  velocity, angular velocity and orientation are the snapshot's; reset flag and progress
  counter are 0.\<close>

theorem reset_idx_restores_perturbed_snapshot:
  assumes "wf_drone s" "distinct env_ids" "\<forall>i\<in>set env_ids. i < num_envs s"
    and "k < length env_ids"
    and "0 \<le> rand_x rnd k \<and> rand_x rnd k < 1" "0 \<le> rand_y rnd k \<and> rand_y rnd k < 1"
      "0 \<le> rand_z rnd k \<and> rand_z rnd k < 1"
  shows "\<exists>s' touched dx dy dz.
           reset_idx s rnd env_ids reset_plates = Inr (s', touched) \<and>
           dx = torch_rand_float (- 1.5) 1.5 (map (rand_x rnd) [0..<length env_ids]) ! k \<and>
           dy = torch_rand_float (- 1.5) 1.5 (map (rand_y rnd) [0..<length env_ids]) ! k \<and>
           dz = torch_rand_float (- 0.2) 1.5 (map (rand_z rnd) [0..<length env_ids]) ! k \<and>
           - 1.5 \<le> dx \<and> dx \<le> 1.5 \<and> - 1.5 \<le> dy \<and> dy \<le> 1.5 \<and> - 0.2 \<le> dz \<and> dz \<le> 1.5 \<and>
           position (root_states s' ! (env_ids ! k)) =
             (vx (position (initial_root_states s ! (env_ids ! k))) + dx,
              vy (position (initial_root_states s ! (env_ids ! k))) + dy,
              vz (position (initial_root_states s ! (env_ids ! k))) + dz) \<and>
           linvel (root_states s' ! (env_ids ! k)) = linvel (initial_root_states s ! (env_ids ! k)) \<and>
           angvel (root_states s' ! (env_ids ! k)) = angvel (initial_root_states s ! (env_ids ! k)) \<and>
           orientation (root_states s' ! (env_ids ! k))
             = orientation (initial_root_states s ! (env_ids ! k)) \<and>
           reset_buf s' ! (env_ids ! k) = 0 \<and> progress_buf s' ! (env_ids ! k) = 0"
proof -
  define dx where "dx = (1.5 - (- 1.5)) * rand_x rnd k + (- 1.5)"
  define dy where "dy = (1.5 - (- 1.5)) * rand_y rnd k + (- 1.5)"
  define dz where "dz = (1.5 - (- 0.2)) * rand_z rnd k + (- 0.2)"
  from assms(1) have len: "length (root_states s) = num_envs s"
    "length (reset_buf s) = num_envs s" "length (progress_buf s) = num_envs s"
    by (simp_all add: wf_drone_def)
  from assms(3) have rng: "\<not> list_ex (\<lambda>i. num_envs s \<le> i) env_ids"
    by (auto simp: list_ex_iff)
  from assms(3,4) have ik: "env_ids ! k < num_envs s" by simp
  obtain R where run: "reset_idx s rnd env_ids reset_plates =
           Inr (s\<lparr>root_states := R,
                  marker_states :=
                    (if reset_plates then index_put (\<lambda>q a. a\<lparr>orientation := q\<rparr>) env_ids
                                  (map (\<lambda>i. wxyz (tilt_quat rnd i)) [0..<length env_ids])
                                  (marker_states s)
                     else marker_states s),
                  reset_buf :=
                    index_put (\<lambda>v _. v) env_ids (replicate (length env_ids) 0) (reset_buf s),
                  progress_buf :=
                    index_put (\<lambda>v _. v) env_ids (replicate (length env_ids) 0) (progress_buf s),
                  sim_root_writes :=
                    sim_root_writes s @ [map (\<lambda>i. all_actor_indices i 0) env_ids]\<rparr>,
                torch_unique (map (\<lambda>i. all_actor_indices i 0) env_ids))"
    and row: "R ! (env_ids ! k) =
            (initial_root_states s ! (env_ids ! k))
              \<lparr>position :=
                 (vx (position (initial_root_states s ! (env_ids ! k))) + dx,
                  vy (position (initial_root_states s ! (env_ids ! k))) + dy,
                  vz (position (initial_root_states s ! (env_ids ! k))) + dz)\<rparr>"
    using reset_idx_result [OF assms(2) rng len(1), of rnd reset_plates] assms(4)
    unfolding dx_def dy_def dz_def by blast
  have ox: "- 1.5 \<le> dx \<and> dx \<le> 1.5" using assms(5) by (simp add: dx_def)
  have oy: "- 1.5 \<le> dy \<and> dy \<le> 1.5" using assms(6) by (simp add: dy_def)
  have oz: "- 0.2 \<le> dz \<and> dz \<le> 1.5" using assms(7) by (simp add: dz_def)
  have flags: "index_put (\<lambda>v _. v) env_ids (replicate (length env_ids) 0) (reset_buf s)
                 ! (env_ids ! k) = 0"
    "index_put (\<lambda>v _. v) env_ids (replicate (length env_ids) 0) (progress_buf s)
                 ! (env_ids ! k) = 0"
    using assms(2,4) ik len by (simp_all add: index_put_nth)
  have samples:
    "dx = torch_rand_float (- 1.5) 1.5 (map (rand_x rnd) [0..<length env_ids]) ! k"
    "dy = torch_rand_float (- 1.5) 1.5 (map (rand_y rnd) [0..<length env_ids]) ! k"
    "dz = torch_rand_float (- 0.2) 1.5 (map (rand_z rnd) [0..<length env_ids]) ! k"
    using assms(4) by (simp_all add: dx_def dy_def dz_def torch_rand_float_nth)
  show ?thesis
    apply (intro exI conjI)
                   apply (rule run)
                  apply (rule samples(1))
                 apply (rule samples(2))
                apply (rule samples(3))
    using ox oy oz flags row by simp_all
qed

theorem reset_idx_restores_perturbed_snapshot_witness:
  "\<exists>s' touched.
      reset_idx (demo [1, 0] [4, 5]) demo_rng [0] False = Inr (s', touched) \<and>
      position (root_states (demo [1, 0] [4, 5]) ! 0) = (2, 3, 4) \<and>
      position (root_states s' ! 0) = (0 + 0, 0 + - (3 / 2), 1 + 13 / 20) \<and>
      linvel (root_states s' ! 0) = (0, 0, 0) \<and> angvel (root_states s' ! 0) = (0, 0, 0) \<and>
      orientation (root_states s' ! 0) = (0, 0, 0, 1) \<and>
      reset_buf s' ! 0 = 0 \<and> progress_buf s' ! 0 = 0"
proof -
  have h: "distinct [0::nat]" "\<forall>i\<in>set [0::nat]. i < num_envs (demo [1, 0] [4, 5])"
    "(0::nat) < length [0::nat]"
    "0 \<le> rand_x demo_rng 0 \<and> rand_x demo_rng 0 < 1"
    "0 \<le> rand_y demo_rng 0 \<and> rand_y demo_rng 0 < 1"
    "0 \<le> rand_z demo_rng 0 \<and> rand_z demo_rng 0 < 1"
    by (simp_all add: demo_def demo_rng_def)
  have i: "initial_root_states (demo [1, 0] [4, 5]) ! 0 = rest_row"
    "position (root_states (demo [1, 0] [4, 5]) ! 0) = (2, 3, 4)"
    by (simp_all add: demo_def moved_row_def)
  have d: "torch_rand_float (- 1.5) 1.5 (map (rand_x demo_rng) [0..<length [0::nat]]) ! 0 = 0"
    "torch_rand_float (- 1.5) 1.5 (map (rand_y demo_rng) [0..<length [0::nat]]) ! 0 = - (3 / 2)"
    "torch_rand_float (- 0.2) 1.5 (map (rand_z demo_rng) [0..<length [0::nat]]) ! 0 = 13 / 20"
    by (simp_all add: torch_rand_float_def demo_rng_def)
  from reset_idx_restores_perturbed_snapshot [OF wf_demo h, of False]
  obtain s' touched dx dy dz where
    run: "reset_idx (demo [1, 0] [4, 5]) demo_rng [0] False = Inr (s', touched)"
    and off: "dx = 0" "dy = - (3 / 2)" "dz = 13 / 20"
    and row: "position (root_states s' ! ([0] ! 0)) =
             (vx (position (initial_root_states (demo [1, 0] [4, 5]) ! ([0] ! 0))) + dx,
              vy (position (initial_root_states (demo [1, 0] [4, 5]) ! ([0] ! 0))) + dy,
              vz (position (initial_root_states (demo [1, 0] [4, 5]) ! ([0] ! 0))) + dz)"
      "linvel (root_states s' ! ([0] ! 0))
         = linvel (initial_root_states (demo [1, 0] [4, 5]) ! ([0] ! 0))"
      "angvel (root_states s' ! ([0] ! 0))
         = angvel (initial_root_states (demo [1, 0] [4, 5]) ! ([0] ! 0))"
      "orientation (root_states s' ! ([0] ! 0))
         = orientation (initial_root_states (demo [1, 0] [4, 5]) ! ([0] ! 0))"
      "reset_buf s' ! ([0] ! 0) = 0" "progress_buf s' ! ([0] ! 0) = 0"
    unfolding d by blast
  from row off have "position (root_states s' ! 0) = (0 + 0, 0 + - (3 / 2), 1 + 13 / 20)"
    "linvel (root_states s' ! 0) = (0, 0, 0)" "angvel (root_states s' ! 0) = (0, 0, 0)"
    "orientation (root_states s' ! 0) = (0, 0, 0, 1)"
    "reset_buf s' ! 0 = 0" "progress_buf s' ! 0 = 0"
    by (simp_all add: i rest_row_def vx_def vy_def vz_def)
  with run i(2) show ?thesis by blast
qed

text \<open>C7. After the force mapping of \<open>pre_physics_step\<close>, every environment of the reset
  set has thrust vector zero and all six entries of its force row zero, and this force
  tensor is the one handed to the simulator.\<close>

theorem reset_envs_get_zero_thrust_and_force:
  assumes "wf_drone s" "length actions = num_envs s \<or> length actions = 1"
  shows "\<exists>s'. pre_physics_step s rnd actions = Inr s' \<and>
           (\<forall>i\<in>set (nonzero (\<lambda>r. r \<noteq> 0) (reset_buf s)).
              thrusts s' ! i = (0, 0, 0, 0) \<and> forces s' ! i = replicate 6 (0, 0, 0)) \<and>
           sim_force_calls s' = sim_force_calls s @ [forces s']"
proof -
  define RS where "RS = nonzero (\<lambda>r. r \<noteq> 0) (reset_buf s)"
  define rows where "rows = (if length actions = num_envs s then map thrust_props actions
                  else replicate (num_envs s) (thrust_props (hd actions)))"
  define F where "F = map2 (rotor_forces (dt s)) rows (forces s)"
  from assms(1) have len: "length (reset_buf s) = num_envs s" "length (thrusts s) = num_envs s"
    "length (forces s) = num_envs s" "list_all (\<lambda>row. length row = 6) (forces s)"
    by (simp_all add: wf_drone_def)
  obtain s' where run: "pre_physics_step s rnd actions = Inr s'"
    and th: "thrusts s' = index_put (\<lambda>v _. v) RS (replicate (length RS) (0, 0, 0, 0)) (thrusts s)"
    and fo: "forces s' = index_put (\<lambda>v row. map (\<lambda>_. v) row) RS (replicate (length RS) (0, 0, 0)) F"
    and ap: "sim_force_calls s' = sim_force_calls s @ [forces s']"
    using pre_physics_step_result [OF assms, of rnd] unfolding RS_def rows_def F_def by blast
  have lr: "length rows = num_envs s" by (simp add: rows_def)
  have lF: "length F = num_envs s" by (simp add: F_def lr len)
  have zero: "thrusts s' ! i = (0, 0, 0, 0) \<and> forces s' ! i = replicate 6 (0, 0, 0)"
    if "i \<in> set RS" for i
  proof -
    from that have i: "i < num_envs s" using len by (simp add: RS_def set_nonzero)
    have d: "distinct RS" by (simp add: RS_def distinct_nonzero)
    from i len have "length (forces s ! i) = 6" by (simp add: list_all_length)
    then have "length (F ! i) = 6" using i lr len by (simp add: F_def)
    then have "map (\<lambda>_. (0, 0, 0) :: vec3) (F ! i) = replicate 6 (0, 0, 0)"
      by (simp add: map_replicate_const)
    then show ?thesis using that i d len lF by (simp add: th fo index_put_replicate)
  qed
  with run ap show ?thesis by (auto simp: RS_def)
qed

theorem reset_envs_get_zero_thrust_and_force_witness:
  "\<exists>s'. pre_physics_step (demo [0, 1] [3, 7]) demo_rng [(1, 1, 1, 1), (1, 1, 1, 1)] = Inr s' \<and>
         thrusts s' ! 1 = (0, 0, 0, 0) \<and> forces s' ! 1 = replicate 6 (0, 0, 0) \<and>
         sim_force_calls s' = [forces s']"
proof -
  have acts: "length [(1, 1, 1, 1), (1, 1, 1, 1) :: action] = num_envs (demo [0, 1] [3, 7])
              \<or> length [(1, 1, 1, 1), (1, 1, 1, 1) :: action] = 1"
    by (simp add: demo_def)
  have nz: "nonzero (\<lambda>r. r \<noteq> 0) (reset_buf (demo [0, 1] [3, 7])) = [1]"
    by (simp add: nonzero_def demo_def upt_2)
  have fc: "sim_force_calls (demo [0, 1] [3, 7]) = []" by (simp add: demo_def)
  show ?thesis
    using reset_envs_get_zero_thrust_and_force [OF wf_demo acts, of demo_rng]
    by (simp add: nz fc)
qed

text \<open>C8. Each of the four thrusts computed for an environment lies between
  \<open>thrust_lower_limit = 0\<close> and \<open>thrust_upper_limit = 2000\<close> for action components of any
  magnitude, and the thrusts of environment \<open>i\<close> are the same in two batches that agree
  on row \<open>i\<close>.\<close>

theorem thrust_clamped_elementwise:
  assumes "i < length actions" "i < length actions'" "actions' ! i = actions ! i"
  shows "(case map thrust_props actions ! i of
            (t0, t1, t2, t3) \<Rightarrow>
              thrust_lower_limit \<le> t0 \<and> t0 \<le> thrust_upper_limit \<and>
              thrust_lower_limit \<le> t1 \<and> t1 \<le> thrust_upper_limit \<and>
              thrust_lower_limit \<le> t2 \<and> t2 \<le> thrust_upper_limit \<and>
              thrust_lower_limit \<le> t3 \<and> t3 \<le> thrust_upper_limit) \<and>
         thrust_lower_limit = 0 \<and> thrust_upper_limit = 2000 \<and>
         map thrust_props actions' ! i = map thrust_props actions ! i"
proof -
  obtain a0 a1 a2 a3 where a: "actions ! i = (a0, a1, a2, a3)" by (cases "actions ! i") auto
  have lim: "thrust_lower_limit \<le> thrust_upper_limit"
    by (simp add: thrust_lower_limit_def thrust_upper_limit_def)
  show ?thesis
    using assms a clamp_bounds [OF lim]
    by (simp add: thrust_props_def) (simp add: thrust_lower_limit_def thrust_upper_limit_def)
qed

theorem thrust_clamped_elementwise_witness:
  "map thrust_props [(0, 0, 0, 0), (1 / 2, 2, - 1, 1000000)] ! 1 = (1000, 2000, 0, 2000) \<and>
   map thrust_props [(5, 5, 5, 5), (1 / 2, 2, - 1, 1000000)] ! 1
     = map thrust_props [(0, 0, 0, 0), (1 / 2, 2, - 1, 1000000)] ! 1"
  using thrust_clamped_elementwise [of 1 "[(0, 0, 0, 0), (1 / 2, 2, - 1, 1000000)]"
      "[(5, 5, 5, 5), (1 / 2, 2, - 1, 1000000)]"]
  by (simp add: thrust_props_def clamp_def thrust_velocity_scale_def thrust_lower_limit_def
      thrust_upper_limit_def)

text \<open>C9. On a tick of a well-formed state, exactly the environments with
  \<open>progress_buf % 500 == 0\<close> get the newly set target (-5, -5, 1) and have their marker
  moved to it; for every other environment the target and the whole marker row are
  unchanged.\<close>

theorem targets_resampled_exactly_on_period:
  assumes "wf_drone s" "length actions = num_envs s \<or> length actions = 1"
  shows "\<exists>s'. pre_physics_step s rnd actions = Inr s' \<and>
           (\<forall>i<num_envs s.
              if progress_buf s ! i mod 500 = 0
              then target_root_positions s' ! i = (- 5, - 5, 1) \<and>
                   position (marker_states s' ! i) = (- 5, - 5, 1)
              else target_root_positions s' ! i = target_root_positions s ! i \<and>
                   marker_states s' ! i = marker_states s ! i)"
proof -
  define RS where "RS = nonzero (\<lambda>r. r \<noteq> 0) (reset_buf s)"
  define ST where "ST = nonzero (\<lambda>p. p mod 500 = 0) (progress_buf s)"
  define M1 where "M1 = map (\<lambda>j. if j \<in> set ST then (marker_states s ! j)\<lparr>position := (- 5, - 5, 1)\<rparr>
                         else marker_states s ! j) [0..<num_envs s]"
  from assms(1) have len: "length (reset_buf s) = num_envs s" "length (progress_buf s) = num_envs s"
    by (simp_all add: wf_drone_def)
  obtain s' where run: "pre_physics_step s rnd actions = Inr s'"
    and T: "target_root_positions s' =
             map (\<lambda>j. if j \<in> set ST then (- 5, - 5, 1) else target_root_positions s ! j)
               [0..<num_envs s]"
    and M: "marker_states s' =
             (if RS \<noteq> [] \<and> list_all (\<lambda>i. progress_buf s ! i = 0) RS
              then index_put (\<lambda>q a. a\<lparr>orientation := q\<rparr>) RS
                     (map (\<lambda>i. wxyz (tilt_quat rnd i)) [0..<length RS]) M1
              else M1)"
    using pre_physics_step_result [OF assms, of rnd] unfolding RS_def ST_def M1_def by blast
  have ST: "i \<in> set ST \<longleftrightarrow> progress_buf s ! i mod 500 = 0" if "i < num_envs s" for i
    using that len by (simp add: ST_def set_nonzero)
  have due: "target_root_positions s' ! i = (- 5, - 5, 1) \<and>
             position (marker_states s' ! i) = (- 5, - 5, 1)"
    if "i < num_envs s" "progress_buf s ! i mod 500 = 0" for i
  proof -
    have "position (M1 ! i) = (- 5, - 5, 1)" using that ST by (simp add: M1_def)
    moreover have "position (index_put (\<lambda>q a. a\<lparr>orientation := q\<rparr>) RS
                     (map (\<lambda>i. wxyz (tilt_quat rnd i)) [0..<length RS]) M1 ! i) = position (M1 ! i)"
      using that(1) by (intro index_put_keeps) (simp_all add: M1_def)
    ultimately have "position (marker_states s' ! i) = (- 5, - 5, 1)" using M by simp
    then show ?thesis using that ST by (simp add: T)
  qed
  have rest: "target_root_positions s' ! i = target_root_positions s ! i \<and>
              marker_states s' ! i = marker_states s ! i"
    if "i < num_envs s" "progress_buf s ! i mod 500 \<noteq> 0" for i
  proof -
    have m1: "M1 ! i = marker_states s ! i" using that ST by (simp add: M1_def)
    have "marker_states s' ! i = M1 ! i"
    proof (cases "RS \<noteq> [] \<and> list_all (\<lambda>i. progress_buf s ! i = 0) RS")
      case False
      then show ?thesis using M by auto
    next
      case True
      have "i \<notin> set RS"
      proof
        assume "i \<in> set RS"
        with True have "progress_buf s ! i = 0" by (simp add: list_all_iff)
        with that(2) show False by simp
      qed
      then show ?thesis using M True by (simp add: index_put_other)
    qed
    then show ?thesis using that ST m1 by (simp add: T)
  qed
  from run due rest show ?thesis by auto
qed

theorem targets_resampled_exactly_on_period_witness:
  "\<exists>s'. pre_physics_step (demo [0, 1] [500, 7]) demo_rng [(0, 0, 0, 0), (0, 0, 0, 0)] = Inr s' \<and>
         target_root_positions s' ! 0 = (- 5, - 5, 1) \<and>
         position (marker_states s' ! 0) = (- 5, - 5, 1) \<and>
         target_root_positions s' ! 1 = (0, 0, 1) \<and> marker_states s' ! 1 = rest_row"
proof -
  have acts: "length [(0, 0, 0, 0), (0, 0, 0, 0) :: action] = num_envs (demo [0, 1] [500, 7])
              \<or> length [(0, 0, 0, 0), (0, 0, 0, 0) :: action] = 1"
    by (simp add: demo_def)
  have sel: "num_envs (demo [0, 1] [500, 7]) = 2" "progress_buf (demo [0, 1] [500, 7]) = [500, 7]"
    "target_root_positions (demo [0, 1] [500, 7]) = [(0, 0, 1), (0, 0, 1)]"
    "marker_states (demo [0, 1] [500, 7]) = [rest_row, rest_row]"
    by (simp_all add: demo_def)
  from targets_resampled_exactly_on_period [OF wf_demo acts, of demo_rng]
  obtain s' where run: "pre_physics_step (demo [0, 1] [500, 7]) demo_rng
                          [(0, 0, 0, 0), (0, 0, 0, 0)] = Inr s'"
    and H: "\<forall>i<2. if [500, 7 :: int] ! i mod 500 = 0
              then target_root_positions s' ! i = (- 5, - 5, 1) \<and>
                   position (marker_states s' ! i) = (- 5, - 5, 1)
              else target_root_positions s' ! i = [(0, 0, 1), (0, 0, 1)] ! i \<and>
                   marker_states s' ! i = [rest_row, rest_row] ! i"
    unfolding sel by blast
  from H have "target_root_positions s' ! 0 = (- 5, - 5, 1) \<and>
         position (marker_states s' ! 0) = (- 5, - 5, 1)"
    by (auto dest: spec [of _ 0])
  moreover from H have "target_root_positions s' ! 1 = (0, 0, 1) \<and> marker_states s' ! 1 = rest_row"
    by (auto dest: spec [of _ 1])
  ultimately show ?thesis using run by blast
qed

text \<open>C10. With plate re-randomization, \<open>reset_idx\<close> on environment 0 overwrites the
  orientation of the plate (actor index \<open>all_actor_indices 0 1 = 1\<close>), yet the returned
  index list is \<open>[0]\<close>: only the drone actor.\<close>

theorem reset_idx_returns_drone_actors_only:
  "reset_idx (demo [1, 0] [0, 5]) demo_rng [0] True =
     Inr ((demo [1, 0] [0, 5])
            \<lparr>root_states := [rest_row\<lparr>position := (0, - 3 / 2, 33 / 20)\<rparr>, moved_row],
             marker_states := [rest_row\<lparr>orientation := (1, 0, 0, 0)\<rparr>, rest_row],
             reset_buf := [0, 0], progress_buf := [0, 5], sim_root_writes := [[0]]\<rparr>,
          [0]) \<and>
   marker_states (demo [1, 0] [0, 5]) = [rest_row, rest_row] \<and>
   orientation rest_row = (0, 0, 0, 1) \<and> all_actor_indices 0 1 = 1"
  by (simp add: reset_idx_def Let_def demo_def demo_rng_def torch_rand_float_def torch_unique_def
      all_actor_indices_def wxyz_def rest_row_def set_x_def set_y_def set_z_def vx_def vy_def
      vz_def)

end
